theory Spec2Isabelle
  imports Main
begin

section \<open>buddymon: parsing /proc/buddyinfo lines and batching them for InfluxDB\<close>

text \<open>
  A shallow embedding of \<^verbatim>\<open>buddymon.go\<close> (the current program, lines 1--161 of the
  file): \<^verbatim>\<open>makeBuddyEntry\<close>, \<^verbatim>\<open>slurpLines\<close>, \<^verbatim>\<open>updateInflux\<close>,
  \<^verbatim>\<open>processBuddyInfo\<close> and \<^verbatim>\<open>main\<close>.

  A Go string is a sequence of bytes, which is what \<^typ>\<open>string\<close> is here. The functions
  of Go's standard library and of the InfluxDB client that the program calls are modelled
  from their documented behaviour; where the library may fail for reasons the program
  does not control, the failure is an input of the model.
\<close>

subsection \<open>Constants\<close>

definition buddyPath :: string where
  "buddyPath = ''proc_buddyinfo.txt''"

definition assertFieldCount :: nat where
  "assertFieldCount = 15"

subsection \<open>Library: formatting with \<^verbatim>\<open>%d\<close>\<close>

definition digitChar :: "nat \<Rightarrow> char" where
  "digitChar d = ''0123456789'' ! d"

fun fmtNat :: "nat \<Rightarrow> string" where
  "fmtNat n = (if n < 10 then [digitChar n] else fmtNat (n div 10) @ [digitChar (n mod 10)])"

declare fmtNat.simps [simp del]

text \<open>The verb \<^verbatim>\<open>%d\<close> of \<^verbatim>\<open>fmt.Sprintf\<close> applied to a Go \<^verbatim>\<open>int\<close>.\<close>

definition fmtInt :: "int \<Rightarrow> string" where
  "fmtInt i = (if i < 0 then CHR ''-'' # fmtNat (nat (- i)) else fmtNat (nat i))"

subsection \<open>Library: UTF-8 decoding and \<^verbatim>\<open>unicode.IsSpace\<close>\<close>

definition RuneError :: nat where
  "RuneError = 0xFFFD"

text \<open>
  \<^verbatim>\<open>utf8.DecodeRuneInString\<close>: the first code point of the string and the number of bytes
  it occupies. An invalid or incomplete encoding yields \<^verbatim>\<open>RuneError\<close> and width 1; the
  empty string yields width 0. The \<^verbatim>\<open>range\<close> loop over a string decodes the same way.
\<close>

fun decodeRune :: "string \<Rightarrow> nat \<times> nat" where
  "decodeRune [] = (RuneError, 0)"
| "decodeRune (c0 # rest) =
     (let s0 = (of_char c0 :: nat) in
      if s0 < 0x80 then (s0, 1)
      else if s0 < 0xC2 \<or> 0xF4 < s0 then (RuneError, 1)
      else
        let sz = (if s0 < 0xE0 then 2 else if s0 < 0xF0 then 3 else (4::nat));
            lo = (if s0 = 0xE0 then 0xA0 else if s0 = 0xF0 then 0x90 else (0x80::nat));
            hi = (if s0 = 0xED then 0x9F else if s0 = 0xF4 then 0x8F else (0xBF::nat))
        in
        if length (c0 # rest) < sz then (RuneError, 1)
        else
          let s1 = (of_char (rest ! 0) :: nat) in
          if s1 < lo \<or> hi < s1 then (RuneError, 1)
          else if sz \<le> 2 then ((s0 mod 32) * 64 + s1 mod 64, 2)
          else
            let s2 = (of_char (rest ! 1) :: nat) in
            if s2 < 0x80 \<or> 0xBF < s2 then (RuneError, 1)
            else if sz \<le> 3 then ((s0 mod 16) * 4096 + (s1 mod 64) * 64 + s2 mod 64, 3)
            else
              let s3 = (of_char (rest ! 2) :: nat) in
              if s3 < 0x80 \<or> 0xBF < s3 then (RuneError, 1)
              else ((s0 mod 8) * 262144 + (s1 mod 64) * 4096 + (s2 mod 64) * 64 + s3 mod 64, 4))"

text \<open>
  \<^verbatim>\<open>unicode.IsSpace\<close>: in Latin-1 the characters tab, newline, vertical tab, form feed,
  carriage return, space, U+0085 and U+00A0; beyond it the code points with the Unicode
  property White_Space.
\<close>

definition IsSpace :: "nat \<Rightarrow> bool" where
  "IsSpace r \<longleftrightarrow>
     (if r \<le> 0xFF then r \<in> {0x09, 0x0A, 0x0B, 0x0C, 0x0D, 0x20, 0x85, 0xA0}
      else r = 0x1680 \<or> (0x2000 \<le> r \<and> r \<le> 0x200A) \<or> r = 0x2028 \<or> r = 0x2029
           \<or> r = 0x202F \<or> r = 0x205F \<or> r = 0x3000)"

lemma decodeRune_width_pos: "1 \<le> snd (decodeRune (c # cs))"
  by (simp add: Let_def)

lemma decodeRune_width_le: "snd (decodeRune (c # cs)) \<le> length (c # cs)"
  apply (simp add: Let_def del: One_nat_def)
  apply (intro conjI impI)
  apply (simp_all)
  apply (cases cs; simp)+
  done

lemma decodeRune_width:
  "1 \<le> snd (decodeRune (c # cs)) \<and> snd (decodeRune (c # cs)) \<le> length (c # cs)"
  using decodeRune_width_pos decodeRune_width_le by blast

subsection \<open>Library: \<^verbatim>\<open>strings.Fields\<close>\<close>

text \<open>
  \<^verbatim>\<open>strings.Fields\<close> splits a string around each run of white space characters, as
  defined by \<^verbatim>\<open>unicode.IsSpace\<close>. The library walks over the runes of the string with
  the start of the field being read (\<^verbatim>\<open>start\<close>, negative outside a field); here the
  field being read is the option \<open>cur\<close>, holding the bytes from \<^verbatim>\<open>start\<close> on.
\<close>

function fieldsLoop :: "string option \<Rightarrow> string \<Rightarrow> string list" where
  "fieldsLoop cur [] = (case cur of None \<Rightarrow> [] | Some f \<Rightarrow> [f])"
| "fieldsLoop cur (c # cs) =
     (let (r, w) = decodeRune (c # cs) in
      if IsSpace r then
        (case cur of
           None \<Rightarrow> fieldsLoop None (drop w (c # cs))
         | Some f \<Rightarrow> f # fieldsLoop None (drop w (c # cs)))
      else
        (case cur of
           None \<Rightarrow> fieldsLoop (Some (take w (c # cs))) (drop w (c # cs))
         | Some f \<Rightarrow> fieldsLoop (Some (f @ take w (c # cs))) (drop w (c # cs))))"
  by pat_completeness auto
termination
proof (relation "measure (\<lambda>(cur, s). length s)")
  show "wf (measure (\<lambda>(cur, s). length s))" by simp
next
  fix cur c cs x r w
  assume "x = decodeRune (c # cs)" "(r, w) = x"
  then have "w = snd (decodeRune (c # cs))" by (metis snd_conv)
  then have "1 \<le> w" using decodeRune_width [of c cs] by simp
  then show "((None, drop w (c # cs)), cur, c # cs) \<in> measure (\<lambda>(cur, s). length s)"
    by simp
next
  fix cur c cs x r w f
  assume "x = decodeRune (c # cs)" "(r, w) = x"
  then have "w = snd (decodeRune (c # cs))" by (metis snd_conv)
  then have "1 \<le> w" using decodeRune_width [of c cs] by simp
  then show "((None, drop w (c # cs)), cur, c # cs) \<in> measure (\<lambda>(cur, s). length s)"
    by simp
next
  fix cur c cs x r w
  assume "x = decodeRune (c # cs)" "(r, w) = x"
  then have "w = snd (decodeRune (c # cs))" by (metis snd_conv)
  then have "1 \<le> w" using decodeRune_width [of c cs] by simp
  then show "((Some (take w (c # cs)), drop w (c # cs)), cur, c # cs)
      \<in> measure (\<lambda>(cur, s). length s)"
    by simp
next
  fix cur c cs x r w f
  assume "x = decodeRune (c # cs)" "(r, w) = x"
  then have "w = snd (decodeRune (c # cs))" by (metis snd_conv)
  then have "1 \<le> w" using decodeRune_width [of c cs] by simp
  then show "((Some (f @ take w (c # cs)), drop w (c # cs)), cur, c # cs)
      \<in> measure (\<lambda>(cur, s). length s)"
    by simp
qed

declare fieldsLoop.simps [simp del]

definition Fields :: "string \<Rightarrow> string list" where
  "Fields s = fieldsLoop None s"

subsection \<open>Library: conversion of a byte to a string\<close>

text \<open>
  \<^verbatim>\<open>string(b)\<close> for a byte \<^verbatim>\<open>b\<close> is the UTF-8 encoding of the code point \<^verbatim>\<open>b\<close>: the
  byte itself below 0x80, two bytes from there on.
\<close>

definition stringOfByte :: "char \<Rightarrow> string" where
  "stringOfByte b =
     (let n = (of_char b :: nat) in
      if n < 0x80 then [b] else [char_of (0xC0 + n div 64), char_of (0x80 + n mod 64)])"

subsection \<open>Results of a call\<close>

text \<open>
  An \<^verbatim>\<open>error\<close> value is either built by \<^verbatim>\<open>fmt.Errorf\<close>, and then it is its message, or
  comes from a library (reading the file, the InfluxDB client). A call returns normally
  (\<open>Ok\<close>), returns a non-nil error (\<open>Err\<close>), panics at run time (\<open>Panic\<close>: an
  index or a slice bound out of range), or ends the process through \<^verbatim>\<open>log.Fatal\<close>
  (\<open>Fatal\<close>).
\<close>

datatype error = Errorf string | LibError string

datatype 'a outcome = Ok 'a | Err error | Panic | Fatal error

subsection \<open>\<^verbatim>\<open>BuddyEntry\<close> and \<^verbatim>\<open>makeBuddyEntry\<close>\<close>

type_synonym strmap = "string \<rightharpoonup> string"

record BuddyEntry =
  Pages :: strmap
  Node :: string
  Zone :: string

text \<open>
  The loop of lines 137--142: \<^verbatim>\<open>pageOrder\<close> starts at 1 and doubles after each page
  count. \<^verbatim>\<open>pageOrder\<close> is a Go \<^verbatim>\<open>int\<close>; the loop runs over eleven tokens, so its
  value stays below 4096 and no overflow is modelled.
\<close>

fun pagesLoop :: "int \<Rightarrow> string list \<Rightarrow> strmap \<Rightarrow> strmap" where
  "pagesLoop pageOrder [] m = m"
| "pagesLoop pageOrder (p # ps) m =
     (let name = fmtInt pageOrder @ ''p'' in
      pagesLoop (pageOrder * 2) ps (m(name \<mapsto> p)))"

definition fieldCountError :: "nat \<Rightarrow> string \<Rightarrow> error" where
  "fieldCountError n line =
     Errorf (''found '' @ fmtInt (int n) @ '' fields in '' @ buddyPath
             @ '' (expected '' @ fmtInt (int assertFieldCount) @ '') in '' @ line)"

definition makeBuddyEntry :: "string \<Rightarrow> BuddyEntry outcome" where
  "makeBuddyEntry line =
     (let fields = Fields line;
          n = length fields
      in
      if n \<noteq> assertFieldCount then Err (fieldCountError n line)
      else if length fields \<le> 1 then Panic
      else
        (case fields ! 1 of
           [] \<Rightarrow> Panic
         | node # _ \<Rightarrow>
             if length fields \<le> 3 then Panic
             else if length fields < 4 then Panic
             else
               let zone = fields ! 3;
                   pages = drop 4 fields
               in Ok \<lparr>Pages = pagesLoop 1 pages Map.empty,
                       Node = stringOfByte node,
                       Zone = zone\<rparr>))"

subsection \<open>Settings, points and the outside world\<close>

text \<open>
  \<^verbatim>\<open>InfluxSettings\<close> as declared in the configuration file of the program, with the
  field \<^verbatim>\<open>Interval\<close> that \<^verbatim>\<open>main\<close> reads (a \<^verbatim>\<open>time.Duration\<close>, in nanoseconds).
  \<^verbatim>\<open>GlobalTags\<close> is a Go map, that is a reference to a map object: the record holds the
  contents of that object, and a function that writes to the object returns its new
  contents.
\<close>

record InfluxSettings =
  URL :: string
  Database :: string
  User :: string
  Password :: string
  Measurement :: string
  Hostname :: string
  UseHostname :: bool
  GlobalTags :: strmap
  Interval :: int

text \<open>
  A point of the InfluxDB client: its measurement, its tags, its fields and its time, a
  number of nanoseconds. \<^verbatim>\<open>client.NewPoint\<close> reads the tag map and the field map it is
  handed into the point's own representation, so a point does not share the maps of the
  program. Of the tags the client keeps those whose value is not the empty string: a tag
  with an empty value is left out of the key of the point, and so of the point that is
  written.
\<close>

record Point =
  ptName :: string
  ptTags :: strmap
  ptFields :: strmap
  ptTime :: int

definition keptTags :: "strmap \<Rightarrow> strmap" where
  "keptTags tags = (\<lambda>k. if tags k = Some [] then None else tags k)"

text \<open>The point \<^verbatim>\<open>client.NewPoint\<close> makes when it returns no error.\<close>

definition newPoint :: "string \<Rightarrow> strmap \<Rightarrow> strmap \<Rightarrow> int \<Rightarrow> Point" where
  "newPoint name tags fs t =
     \<lparr>ptName = name, ptTags = keptTags tags, ptFields = fs, ptTime = t\<rparr>"

text \<open>
  What the outside world answers during one cycle: the result of reading the file, the
  clock, and the errors the InfluxDB client returns (\<open>None\<close> is \<^verbatim>\<open>nil\<close>).
\<close>

record world =
  ReadFile :: "error + string"
  Now :: int
  NewHTTPClient :: "error option"
  NewBatchPoints :: "error option"
  NewPoint :: "Point \<Rightarrow> error option"
  Write :: "Point list \<Rightarrow> error option"

text \<open>What a run of the program does that can be observed.\<close>

datatype event = Wrote "Point list" | Printed error | Slept int | LoggedFatal error

subsection \<open>\<^verbatim>\<open>slurpLines\<close>\<close>

text \<open>
  The lines of the file come from a \<^verbatim>\<open>bufio.Scanner\<close>, the parameter \<open>scan\<close>. When
  the file cannot be read the function returns no lines and the error.
\<close>

definition slurpLines :: "(string \<Rightarrow> string list) \<Rightarrow> error + string \<Rightarrow> string list \<times> error option" where
  "slurpLines scan rd =
     (case rd of
        Inl err \<Rightarrow> ([], Some err)
      | Inr data \<Rightarrow> (scan data, None))"

subsection \<open>\<^verbatim>\<open>updateInflux\<close>\<close>

text \<open>
  The loop of lines 88--100. \<^verbatim>\<open>tags := influx.GlobalTags\<close> copies the reference, not
  the map: \<^verbatim>\<open>tags\<close> and \<^verbatim>\<open>GlobalTags\<close> are one map object, whose contents are the
  argument \<open>g\<close>, and the two assignments write to it. \<^verbatim>\<open>client.NewPoint\<close> is handed
  that map and either refuses the point or makes it. The loop returns the batch of
  points, or the error of \<^verbatim>\<open>NewPoint\<close>, together with the contents of the map object
  at that moment.
\<close>

fun addPoints ::
  "(Point \<Rightarrow> error option) \<Rightarrow> string \<Rightarrow> strmap \<Rightarrow> BuddyEntry list \<Rightarrow> int \<Rightarrow> Point list
     \<Rightarrow> (error + Point list) \<times> strmap" where
  "addPoints np m g [] t bp = (Inr bp, g)"
| "addPoints np m g (entry # batch) t bp =
     (let tags = g(''node'' \<mapsto> Node entry);
          tags = tags(''zone'' \<mapsto> Zone entry);
          pt = newPoint m tags (Pages entry) t
      in
      case np pt of
        Some err \<Rightarrow> (Inl err, tags)
      | None \<Rightarrow> addPoints np m tags batch (t + 1) (bp @ [pt]))"

definition updateInflux ::
  "world \<Rightarrow> InfluxSettings \<Rightarrow> BuddyEntry list \<Rightarrow> unit outcome \<times> event list \<times> strmap" where
  "updateInflux w influx batch =
     (case NewHTTPClient w of
        Some err \<Rightarrow> (Err err, [], GlobalTags influx)
      | None \<Rightarrow>
          (case NewBatchPoints w of
             Some err \<Rightarrow> (Err err, [], GlobalTags influx)
           | None \<Rightarrow>
               let t = Now w in
               (case addPoints (NewPoint w) (Measurement influx) (GlobalTags influx) batch t [] of
                  (Inl err, g) \<Rightarrow> (Err err, [], g)
                | (Inr bp, g) \<Rightarrow>
                    (case Write w bp of
                       Some err \<Rightarrow> (Err err, [Wrote bp], g)
                     | None \<Rightarrow> (Ok (), [Wrote bp], g)))))"

subsection \<open>\<^verbatim>\<open>processBuddyInfo\<close> and \<^verbatim>\<open>main\<close>\<close>

text \<open>The loop of lines 45--52: the first line that is refused ends the function.\<close>

fun readBatch :: "string list \<Rightarrow> BuddyEntry list \<Rightarrow> BuddyEntry list outcome" where
  "readBatch [] batch = Ok batch"
| "readBatch (line # lines) batch =
     (case makeBuddyEntry line of
        Ok entry \<Rightarrow> readBatch lines (batch @ [entry])
      | Err err \<Rightarrow> Err err
      | Panic \<Rightarrow> Panic
      | Fatal err \<Rightarrow> Fatal err)"

definition processBuddyInfo ::
  "(string \<Rightarrow> string list) \<Rightarrow> world \<Rightarrow> InfluxSettings \<Rightarrow> unit outcome \<times> event list \<times> strmap" where
  "processBuddyInfo scan w influxConfig =
     (case slurpLines scan (ReadFile w) of
        (lines, Some err) \<Rightarrow> (Fatal err, [LoggedFatal err], GlobalTags influxConfig)
      | (lines, None) \<Rightarrow>
          (case readBatch lines [] of
             Ok batch \<Rightarrow> updateInflux w influxConfig batch
           | Err err \<Rightarrow> (Err err, [], GlobalTags influxConfig)
           | Panic \<Rightarrow> (Panic, [], GlobalTags influxConfig)
           | Fatal err \<Rightarrow> (Fatal err, [], GlobalTags influxConfig)))"

text \<open>
  \<^verbatim>\<open>main\<close> loops for ever. The model runs it against the answers of the world for
  finitely many cycles, one element of the list for each, and returns what was observed
  and whether the process is still in its loop when the list is used up
  (\<open>Running\<close>), has left through \<^verbatim>\<open>log.Fatal\<close> (\<open>Exited\<close>) or has died of a panic
  (\<open>Crashed\<close>).
\<close>

datatype status = Running | Exited | Crashed

fun mainLoop :: "(string \<Rightarrow> string list) \<Rightarrow> InfluxSettings \<Rightarrow> world list \<Rightarrow> event list \<times> status" where
  "mainLoop scan influxConfig [] = ([], Running)"
| "mainLoop scan influxConfig (w # ws) =
     (case processBuddyInfo scan w influxConfig of
        (Fatal err, evs, g) \<Rightarrow> (evs, Exited)
      | (Panic, evs, g) \<Rightarrow> (evs, Crashed)
      | (Err err, evs, g) \<Rightarrow>
          (let (evs', st) = mainLoop scan (influxConfig\<lparr>GlobalTags := g\<rparr>) ws
           in (evs @ [Printed err, Slept (Interval influxConfig)] @ evs', st))
      | (Ok u, evs, g) \<Rightarrow>
          (let (evs', st) = mainLoop scan (influxConfig\<lparr>GlobalTags := g\<rparr>) ws
           in (evs @ [Slept (Interval influxConfig)] @ evs', st)))"
subsection \<open>Concrete inputs\<close>

text \<open>The first line of the sample in the source, and a line that is too short.\<close>

definition sampleLine :: string where
  "sampleLine = ''Node 0, zone      DMA      1      1      1      0      2      1      1      0      1      1      3''"

definition shortLine :: string where
  "shortLine = ''Node 0, zone DMA 1''"

definition twoLineFile :: string where
  "twoLineFile = sampleLine @ [CHR 0x0A] @ shortLine"

definition sampleEntry :: BuddyEntry where
  "sampleEntry =
     \<lparr>Pages = [''1p'' \<mapsto> ''1'', ''2p'' \<mapsto> ''1'', ''4p'' \<mapsto> ''1'', ''8p'' \<mapsto> ''0'', ''16p'' \<mapsto> ''2'',
               ''32p'' \<mapsto> ''1'', ''64p'' \<mapsto> ''1'', ''128p'' \<mapsto> ''0'', ''256p'' \<mapsto> ''1'',
               ''512p'' \<mapsto> ''1'', ''1024p'' \<mapsto> ''3''],
      Node = ''0'', Zone = ''DMA''\<rparr>"

text \<open>A scanner for the examples: the lines of a text, cut at the newline characters.\<close>

fun linesFrom :: "string \<Rightarrow> string \<Rightarrow> string list" where
  "linesFrom cur [] = (if cur = [] then [] else [cur])"
| "linesFrom cur (c # cs) =
     (if c = CHR 0x0A then cur # linesFrom [] cs else linesFrom (cur @ [c]) cs)"

definition linesOf :: "string \<Rightarrow> string list" where
  "linesOf s = linesFrom [] s"

text \<open>A client that accepts every point and every batch, and one that refuses to write.\<close>

definition noPointError :: "Point \<Rightarrow> error option" where
  "noPointError pt = None"

definition noWriteError :: "Point list \<Rightarrow> error option" where
  "noWriteError bp = None"

definition refusedWrite :: "Point list \<Rightarrow> error option" where
  "refusedWrite bp = Some (LibError ''connection refused'')"

definition exSettings :: InfluxSettings where
  "exSettings =
     \<lparr>URL = ''http://localhost:8086'', Database = ''buddyinfo'', User = '''', Password = '''',
      Measurement = ''buddyinfo'', Hostname = ''box'', UseHostname = True,
      GlobalTags = [''host'' \<mapsto> ''box'', ''node'' \<mapsto> ''static''], Interval = 5000000000\<rparr>"

definition goodWorld :: world where
  "goodWorld =
     \<lparr>ReadFile = Inr sampleLine, Now = 1000, NewHTTPClient = None, NewBatchPoints = None,
      NewPoint = noPointError, Write = noWriteError\<rparr>"

definition badLineWorld :: world where
  "badLineWorld =
     \<lparr>ReadFile = Inr twoLineFile, Now = 1000, NewHTTPClient = None,
      NewBatchPoints = None, NewPoint = noPointError, Write = noWriteError\<rparr>"

definition writeFailWorld :: world where
  "writeFailWorld =
     \<lparr>ReadFile = Inr sampleLine, Now = 1000, NewHTTPClient = None, NewBatchPoints = None,
      NewPoint = noPointError, Write = refusedWrite\<rparr>"

definition noFileWorld :: world where
  "noFileWorld =
     \<lparr>ReadFile = Inl (LibError ''open proc_buddyinfo.txt: no such file or directory''),
      Now = 1000, NewHTTPClient = None, NewBatchPoints = None,
      NewPoint = noPointError, Write = noWriteError\<rparr>"

text \<open>A second entry, two batches and the points made from them.\<close>

definition otherEntry :: BuddyEntry where
  "otherEntry = \<lparr>Pages = [''1p'' \<mapsto> ''3888'', ''2p'' \<mapsto> ''10304''], Node = ''1'', Zone = ''Normal''\<rparr>"

definition twoEntries :: "BuddyEntry list" where
  "twoEntries = [sampleEntry, otherEntry]"

definition samplePoint :: Point where
  "samplePoint =
     \<lparr>ptName = ''buddyinfo'',
      ptTags = [''host'' \<mapsto> ''box'', ''node'' \<mapsto> ''0'', ''zone'' \<mapsto> ''DMA''],
      ptFields = Pages sampleEntry, ptTime = 1000\<rparr>"

definition twoPoints :: "Point list" where
  "twoPoints =
     [samplePoint,
      \<lparr>ptName = ''buddyinfo'',
       ptTags = [''host'' \<mapsto> ''box'', ''node'' \<mapsto> ''1'', ''zone'' \<mapsto> ''Normal''],
       ptFields = Pages otherEntry, ptTime = 1001\<rparr>]"

definition otherSettings :: InfluxSettings where
  "otherSettings = exSettings\<lparr>Measurement := ''fragmentation'', Database := ''metrics''\<rparr>"

text \<open>
  The settings \<^verbatim>\<open>getConfig\<close> returns when the host name could not be found: the tag
  \<^verbatim>\<open>host\<close> is there, and empty.
\<close>

definition noHostSettings :: InfluxSettings where
  "noHostSettings = exSettings\<lparr>Hostname := '''', GlobalTags := [''host'' \<mapsto> '''']\<rparr>"

definition noHostPoint :: Point where
  "noHostPoint =
     \<lparr>ptName = ''buddyinfo'', ptTags = [''node'' \<mapsto> ''0'', ''zone'' \<mapsto> ''DMA''],
      ptFields = Pages sampleEntry, ptTime = 1000\<rparr>"

definition laterWorld :: world where
  "laterWorld =
     \<lparr>ReadFile = Inr sampleLine, Now = 2000, NewHTTPClient = None, NewBatchPoints = None,
      NewPoint = noPointError, Write = noWriteError\<rparr>"

definition otherPoint :: Point where
  "otherPoint =
     \<lparr>ptName = ''fragmentation'',
      ptTags = [''host'' \<mapsto> ''box'', ''node'' \<mapsto> ''1'', ''zone'' \<mapsto> ''Normal''],
      ptFields = Pages otherEntry, ptTime = 2000\<rparr>"

section \<open>The tags the client keeps\<close>

lemma keptTags_empty: "keptTags Map.empty = Map.empty"
  by (rule ext) (simp add: keptTags_def)

lemma keptTags_upd:
  "keptTags (m(k \<mapsto> v)) = (if v = [] then (keptTags m)(k := None) else (keptTags m)(k \<mapsto> v))"
  by (rule ext) (simp add: keptTags_def)

lemma keptTags_nonempty: "v \<noteq> [] \<Longrightarrow> keptTags (m(k \<mapsto> v)) k = Some v"
  by (simp add: keptTags_def)

lemma keptTags_other:
  "k \<noteq> a \<Longrightarrow> k \<noteq> b \<Longrightarrow>
     keptTags (m(a \<mapsto> x, b \<mapsto> y)) k = (if m k = Some [] then None else m k)"
  by (simp add: keptTags_def)

section \<open>The parser\<close>

subsection \<open>Fields are never empty\<close>

lemma fieldsLoop_nonempty:
  "(\<And>f. cur = Some f \<Longrightarrow> f \<noteq> []) \<Longrightarrow> t \<in> set (fieldsLoop cur s) \<Longrightarrow> t \<noteq> []"
proof (induction cur s rule: fieldsLoop.induct)
  case (1 cur)
  then show ?case by (auto simp: fieldsLoop.simps split: option.splits)
next
  case (2 cur c cs)
  obtain r w where rw: "decodeRune (c # cs) = (r, w)" by (cases "decodeRune (c # cs)")
  have w: "1 \<le> w" using decodeRune_width_pos [of c cs] rw by simp
  then have tk: "take w (c # cs) \<noteq> []" by (cases w) simp_all
  show ?case
  proof (cases "IsSpace r")
    case True
    show ?thesis
    proof (cases cur)
      case None
      with True rw 2 show ?thesis by (simp add: fieldsLoop.simps)
    next
      case (Some f)
      with True rw 2 show ?thesis by (auto simp: fieldsLoop.simps)
    qed
  next
    case False
    show ?thesis
    proof (cases cur)
      case None
      with False rw tk 2 show ?thesis by (simp add: fieldsLoop.simps)
    next
      case (Some f)
      with False rw tk 2 show ?thesis by (simp add: fieldsLoop.simps)
    qed
  qed
qed

lemma Fields_nonempty: "t \<in> set (Fields s) \<Longrightarrow> t \<noteq> []"
  unfolding Fields_def by (rule fieldsLoop_nonempty [of None]) simp_all

subsection \<open>The two ways out of \<^verbatim>\<open>makeBuddyEntry\<close>\<close>

lemma makeBuddyEntry_accepts:
  assumes "length (Fields line) = 15"
  shows "\<exists>node rest. Fields line ! 1 = node # rest \<and>
           makeBuddyEntry line =
             Ok \<lparr>Pages = pagesLoop 1 (drop 4 (Fields line)) Map.empty,
                 Node = stringOfByte node, Zone = Fields line ! 3\<rparr>"
proof -
  have "Fields line ! 1 \<in> set (Fields line)" using assms by simp
  then have "Fields line ! 1 \<noteq> []" by (rule Fields_nonempty)
  then obtain node rest where nr: "Fields line ! 1 = node # rest"
    by (cases "Fields line ! 1") auto
  with assms show ?thesis
    by (simp add: makeBuddyEntry_def assertFieldCount_def Let_def)
qed

lemma makeBuddyEntry_refuses:
  "length (Fields line) \<noteq> 15 \<Longrightarrow>
     makeBuddyEntry line = Err (fieldCountError (length (Fields line)) line)"
  by (simp add: makeBuddyEntry_def assertFieldCount_def Let_def)

lemma makeBuddyEntry_Ok_iff:
  "(\<exists>entry. makeBuddyEntry line = Ok entry) \<longleftrightarrow> length (Fields line) = 15"
proof
  assume "\<exists>entry. makeBuddyEntry line = Ok entry"
  then show "length (Fields line) = 15"
    using makeBuddyEntry_refuses [of line] by (cases "length (Fields line) = 15") auto
next
  assume "length (Fields line) = 15"
  then show "\<exists>entry. makeBuddyEntry line = Ok entry"
    using makeBuddyEntry_accepts [of line] by auto
qed

subsection \<open>The page labels\<close>

lemma fmtInt_labels:
  "fmtInt 1 = ''1''" "fmtInt 2 = ''2''" "fmtInt 4 = ''4''" "fmtInt 8 = ''8''"
  "fmtInt 16 = ''16''" "fmtInt 32 = ''32''" "fmtInt 64 = ''64''" "fmtInt 128 = ''128''"
  "fmtInt 256 = ''256''" "fmtInt 512 = ''512''" "fmtInt 1024 = ''1024''"
  by (simp_all add: fmtInt_def fmtNat.simps digitChar_def)

lemma fmtInt_counts: "fmtInt 15 = ''15''" "fmtInt 5 = ''5''"
  by (simp_all add: fmtInt_def fmtNat.simps digitChar_def)

lemma list_eleven:
  "length ps = 11 \<Longrightarrow>
     \<exists>p0 p1 p2 p3 p4 p5 p6 p7 p8 p9 p10. ps = [p0, p1, p2, p3, p4, p5, p6, p7, p8, p9, p10]"
  by (simp add: eval_nat_numeral length_Suc_conv) blast

lemma pagesLoop_eleven:
  "pagesLoop 1 [p0, p1, p2, p3, p4, p5, p6, p7, p8, p9, p10] Map.empty =
     [''1p'' \<mapsto> p0, ''2p'' \<mapsto> p1, ''4p'' \<mapsto> p2, ''8p'' \<mapsto> p3, ''16p'' \<mapsto> p4, ''32p'' \<mapsto> p5,
      ''64p'' \<mapsto> p6, ''128p'' \<mapsto> p7, ''256p'' \<mapsto> p8, ''512p'' \<mapsto> p9, ''1024p'' \<mapsto> p10]"
  by (simp add: fmtInt_labels)

lemma dom_pagesLoop_eleven:
  "length ps = 11 \<Longrightarrow>
     dom (pagesLoop 1 ps Map.empty) =
       {''1p'', ''2p'', ''4p'', ''8p'', ''16p'', ''32p'', ''64p'', ''128p'', ''256p'', ''512p'', ''1024p''}"
proof -
  assume "length ps = 11"
  from list_eleven [OF this] obtain p0 p1 p2 p3 p4 p5 p6 p7 p8 p9 p10
    where "ps = [p0, p1, p2, p3, p4, p5, p6, p7, p8, p9, p10]"
    by (elim exE)
  then show ?thesis by (simp only: pagesLoop_eleven) auto
qed

lemma card_page_labels:
  "card {''1p'', ''2p'', ''4p'', ''8p'', ''16p'', ''32p'', ''64p'', ''128p'', ''256p'', ''512p'', ''1024p''} = 11"
  by simp

lemma index_below_eleven:
  "(i::nat) < 11 \<Longrightarrow>
     i = 0 \<or> i = 1 \<or> i = 2 \<or> i = 3 \<or> i = 4 \<or> i = 5 \<or> i = 6 \<or> i = 7 \<or> i = 8 \<or> i = 9 \<or> i = 10"
  by (auto simp: less_Suc_eq eval_nat_numeral)

lemma pagesLoop_lookup:
  assumes "length ps = 11" and "i < 11"
  shows "pagesLoop 1 ps Map.empty (fmtInt (2 ^ i) @ ''p'') = Some (ps ! i)"
proof -
  from list_eleven [OF assms(1)] obtain p0 p1 p2 p3 p4 p5 p6 p7 p8 p9 p10
    where ps: "ps = [p0, p1, p2, p3, p4, p5, p6, p7, p8, p9, p10]"
    by (elim exE)
  from index_below_eleven [OF assms(2)] show ?thesis
    unfolding ps by (elim disjE) (simp_all add: pagesLoop_eleven fmtInt_labels)
qed

lemma page_label_list:
  "map (\<lambda>i. fmtInt (2 ^ i) @ ''p'') [0..<11] =
     [''1p'', ''2p'', ''4p'', ''8p'', ''16p'', ''32p'', ''64p'', ''128p'', ''256p'', ''512p'', ''1024p'']"
  by (simp add: upt_rec fmtInt_labels)

subsection \<open>The sample line\<close>

lemma Fields_sampleLine:
  "Fields sampleLine =
     [''Node'', ''0,'', ''zone'', ''DMA'', ''1'', ''1'', ''1'', ''0'', ''2'', ''1'', ''1'', ''0'', ''1'', ''1'', ''3'']"
  by code_simp

lemma Fields_shortLine: "Fields shortLine = [''Node'', ''0,'', ''zone'', ''DMA'', ''1'']"
  by code_simp

lemma makeBuddyEntry_sampleLine: "makeBuddyEntry sampleLine = Ok sampleEntry"
  by (simp add: makeBuddyEntry_def Fields_sampleLine assertFieldCount_def stringOfByte_def
      sampleEntry_def fmtInt_labels)

lemma makeBuddyEntry_shortLine:
  "makeBuddyEntry shortLine =
     Err (Errorf ''found 5 fields in proc_buddyinfo.txt (expected 15) in Node 0, zone DMA 1'')"
  unfolding makeBuddyEntry_def Fields_shortLine
  by (simp add: assertFieldCount_def fieldCountError_def fmtInt_counts buddyPath_def shortLine_def)


lemma linesOf_two_lines: "linesOf twoLineFile = [sampleLine, shortLine]"
  by code_simp

lemma linesOf_sampleLine: "linesOf sampleLine = [sampleLine]"
  by code_simp

lemma fieldCountError_message:
  "fieldCountError n line =
     Errorf (''found '' @ fmtInt (int n) @ '' fields in proc_buddyinfo.txt (expected 15) in '' @ line)"
  by (simp add: fieldCountError_def buddyPath_def assertFieldCount_def fmtInt_counts)

lemma makeBuddyEntry_pages:
  assumes "makeBuddyEntry line = Ok entry"
  shows "length (Fields line) = 15"
    and "length (drop 4 (Fields line)) = 11"
    and "Pages entry = pagesLoop 1 (drop 4 (Fields line)) Map.empty"
    and "Zone entry = Fields line ! 3"
    and "\<exists>node rest. Fields line ! 1 = node # rest \<and> Node entry = stringOfByte node"
proof -
  from assms show len: "length (Fields line) = 15"
    using makeBuddyEntry_Ok_iff [of line] by blast
  then show "length (drop 4 (Fields line)) = 11" by simp
  from makeBuddyEntry_accepts [OF len] assms
  show "Pages entry = pagesLoop 1 (drop 4 (Fields line)) Map.empty"
    and "Zone entry = Fields line ! 3"
    and "\<exists>node rest. Fields line ! 1 = node # rest \<and> Node entry = stringOfByte node"
    by auto
qed

subsection \<open>A file with a refused line\<close>

lemma readBatch_cases:
  "(\<exists>batch. readBatch lines acc = Ok batch \<and> (\<forall>l\<in>set lines. length (Fields l) = 15)) \<or>
   (\<exists>l\<in>set lines. length (Fields l) \<noteq> 15 \<and>
      readBatch lines acc = Err (fieldCountError (length (Fields l)) l))"
proof (induction lines arbitrary: acc)
  case Nil
  then show ?case by simp
next
  case (Cons l ls)
  show ?case
  proof (cases "length (Fields l) = 15")
    case True
    then obtain entry where e: "makeBuddyEntry l = Ok entry"
      using makeBuddyEntry_Ok_iff [of l] by blast
    from Cons.IH [of "acc @ [entry]"] e True show ?thesis by auto
  next
    case False
    then show ?thesis using makeBuddyEntry_refuses [of l] by simp
  qed
qed

lemma processBuddyInfo_refused_line:
  assumes "ReadFile w = Inr data" and "bad \<in> set (scan data)" and "length (Fields bad) \<noteq> 15"
  shows "\<exists>l\<in>set (scan data). length (Fields l) \<noteq> 15 \<and>
           processBuddyInfo scan w cfg = (Err (fieldCountError (length (Fields l)) l), [], GlobalTags cfg)"
proof -
  from readBatch_cases [of "scan data" "[]"] assms(2,3)
  obtain l where l: "l \<in> set (scan data)" "length (Fields l) \<noteq> 15"
    "readBatch (scan data) [] = Err (fieldCountError (length (Fields l)) l)"
    by auto
  then have "processBuddyInfo scan w cfg = (Err (fieldCountError (length (Fields l)) l), [], GlobalTags cfg)"
    using assms(1) by (simp add: processBuddyInfo_def slurpLines_def)
  with l show ?thesis by blast
qed

lemma processBuddyInfo_badLineWorld:
  "processBuddyInfo linesOf badLineWorld exSettings =
     (Err (Errorf ''found 5 fields in proc_buddyinfo.txt (expected 15) in Node 0, zone DMA 1''),
      [], GlobalTags exSettings)"
  by (simp add: processBuddyInfo_def slurpLines_def badLineWorld_def linesOf_two_lines
      makeBuddyEntry_sampleLine makeBuddyEntry_shortLine)

section \<open>Claims about the parser\<close>

text \<open>
  C1. A line is accepted exactly when \<^verbatim>\<open>strings.Fields\<close> cuts it into 15 tokens. An
  accepted line gives an entry with 11 page counts. A line with any other number of
  tokens is refused with the error that names the number found and the 15 expected, and
  when such a line is in the file the cycle returns that error without having built a
  batch: nothing is written and the global tags are untouched.
\<close>

theorem makeBuddyEntry_field_count:
  "((\<exists>entry. makeBuddyEntry line = Ok entry) \<longleftrightarrow> length (Fields line) = 15)
   \<and> (\<forall>entry. makeBuddyEntry line = Ok entry \<longrightarrow> card (dom (Pages entry)) = 11)
   \<and> (length (Fields bad) \<noteq> 15 \<longrightarrow>
        makeBuddyEntry bad =
          Err (Errorf (''found '' @ fmtInt (int (length (Fields bad)))
                       @ '' fields in proc_buddyinfo.txt (expected 15) in '' @ bad))
        \<and> (ReadFile w = Inr data \<and> bad \<in> set (scan data) \<longrightarrow>
             (\<exists>l\<in>set (scan data). length (Fields l) \<noteq> 15 \<and>
                processBuddyInfo scan w cfg =
                  (Err (fieldCountError (length (Fields l)) l), [], GlobalTags cfg))))"
proof (intro conjI allI impI)
  show "(\<exists>entry. makeBuddyEntry line = Ok entry) \<longleftrightarrow> length (Fields line) = 15"
    by (rule makeBuddyEntry_Ok_iff)
next
  fix entry assume ok: "makeBuddyEntry line = Ok entry"
  have "dom (Pages entry) =
      {''1p'', ''2p'', ''4p'', ''8p'', ''16p'', ''32p'', ''64p'', ''128p'', ''256p'', ''512p'', ''1024p''}"
    using makeBuddyEntry_pages(2,3) [OF ok] dom_pagesLoop_eleven by simp
  then show "card (dom (Pages entry)) = 11" by (simp only: card_page_labels)
next
  assume "length (Fields bad) \<noteq> 15"
  then show "makeBuddyEntry bad =
      Err (Errorf (''found '' @ fmtInt (int (length (Fields bad)))
                   @ '' fields in proc_buddyinfo.txt (expected 15) in '' @ bad))"
    using makeBuddyEntry_refuses [of bad] by (simp add: fieldCountError_message)
next
  assume "length (Fields bad) \<noteq> 15" and "ReadFile w = Inr data \<and> bad \<in> set (scan data)"
  then show "\<exists>l\<in>set (scan data). length (Fields l) \<noteq> 15 \<and>
      processBuddyInfo scan w cfg = (Err (fieldCountError (length (Fields l)) l), [], GlobalTags cfg)"
    using processBuddyInfo_refused_line [of w data bad scan cfg] by blast
qed

theorem makeBuddyEntry_field_count_witness:
  "(\<exists>entry. makeBuddyEntry sampleLine = Ok entry) \<and> length (Fields sampleLine) = 15
   \<and> card (dom (Pages sampleEntry)) = 11
   \<and> length (Fields shortLine) = 5
   \<and> makeBuddyEntry shortLine =
       Err (Errorf ''found 5 fields in proc_buddyinfo.txt (expected 15) in Node 0, zone DMA 1'')
   \<and> shortLine \<in> set (linesOf twoLineFile)
   \<and> processBuddyInfo linesOf badLineWorld exSettings =
       (Err (Errorf ''found 5 fields in proc_buddyinfo.txt (expected 15) in Node 0, zone DMA 1''),
        [], GlobalTags exSettings)"
proof -
  have rd: "ReadFile badLineWorld = Inr twoLineFile"
    by (simp add: badLineWorld_def)
  have short: "length (Fields shortLine) \<noteq> 15" by (simp add: Fields_shortLine)
  note inst = makeBuddyEntry_field_count
    [of sampleLine shortLine badLineWorld twoLineFile linesOf exSettings]
  from inst have "\<exists>entry. makeBuddyEntry sampleLine = Ok entry"
    by (simp add: Fields_sampleLine)
  moreover from inst have "card (dom (Pages sampleEntry)) = 11"
    using makeBuddyEntry_sampleLine by blast
  moreover have "makeBuddyEntry shortLine =
       Err (Errorf ''found 5 fields in proc_buddyinfo.txt (expected 15) in Node 0, zone DMA 1'')"
  proof -
    from inst short have "makeBuddyEntry shortLine =
        Err (Errorf (''found '' @ fmtInt (int (length (Fields shortLine)))
                     @ '' fields in proc_buddyinfo.txt (expected 15) in '' @ shortLine))"
      by blast
    then show ?thesis
      unfolding Fields_shortLine by (simp add: fmtInt_counts shortLine_def)
  qed
  moreover have "processBuddyInfo linesOf badLineWorld exSettings =
       (Err (Errorf ''found 5 fields in proc_buddyinfo.txt (expected 15) in Node 0, zone DMA 1''),
        [], GlobalTags exSettings)"
    by (rule processBuddyInfo_badLineWorld)
  ultimately show ?thesis
    by (simp add: Fields_sampleLine Fields_shortLine linesOf_two_lines)
qed

text \<open>
  C10. \<^verbatim>\<open>makeBuddyEntry\<close> never panics: for every string it returns an entry or the
  field count error. No token of \<^verbatim>\<open>strings.Fields\<close> is empty, so when the count is 15
  the byte \<^verbatim>\<open>fields[1][0]\<close> exists, and the indices 1 and 3 and the slice from 4 are
  within the 15 tokens, the slice holding 11 of them.
\<close>

theorem makeBuddyEntry_total:
  "makeBuddyEntry line \<noteq> Panic
   \<and> (\<forall>err. makeBuddyEntry line \<noteq> Fatal err)
   \<and> ((\<exists>entry. makeBuddyEntry line = Ok entry)
        \<or> makeBuddyEntry line = Err (fieldCountError (length (Fields line)) line))
   \<and> (\<forall>t\<in>set (Fields line). t \<noteq> [])
   \<and> (length (Fields line) = assertFieldCount \<longrightarrow>
        Fields line ! 1 \<noteq> [] \<and> 1 < length (Fields line) \<and> 3 < length (Fields line)
        \<and> 4 \<le> length (Fields line) \<and> length (drop 4 (Fields line)) = 11)"
proof -
  have tokens: "\<forall>t\<in>set (Fields line). t \<noteq> []"
    using Fields_nonempty by blast
  have either: "(\<exists>entry. makeBuddyEntry line = Ok entry)
        \<or> makeBuddyEntry line = Err (fieldCountError (length (Fields line)) line)"
    using makeBuddyEntry_accepts [of line] makeBuddyEntry_refuses [of line]
    by (cases "length (Fields line) = 15") auto
  from either have "makeBuddyEntry line \<noteq> Panic" by auto
  moreover from either have "\<forall>err. makeBuddyEntry line \<noteq> Fatal err" by auto
  moreover have "length (Fields line) = assertFieldCount \<longrightarrow>
        Fields line ! 1 \<noteq> [] \<and> 1 < length (Fields line) \<and> 3 < length (Fields line)
        \<and> 4 \<le> length (Fields line) \<and> length (drop 4 (Fields line)) = 11"
    using tokens by (simp add: assertFieldCount_def)
  ultimately show ?thesis using tokens either by blast
qed

theorem makeBuddyEntry_total_witness:
  "makeBuddyEntry sampleLine = Ok sampleEntry
   \<and> length (Fields sampleLine) = assertFieldCount
   \<and> Fields sampleLine ! 1 = ''0,''
   \<and> length (drop 4 (Fields sampleLine)) = 11
   \<and> makeBuddyEntry shortLine \<noteq> Panic"
  using makeBuddyEntry_total [of sampleLine] makeBuddyEntry_total [of shortLine]
    makeBuddyEntry_sampleLine
  by (simp add: Fields_sampleLine assertFieldCount_def)

text \<open>
  C2. The sample line: \<^verbatim>\<open>strings.Fields\<close> gives its 15 tokens, the node is \<^verbatim>\<open>"0"\<close>, the
  first byte of the token \<^verbatim>\<open>"0,"\<close>, the zone is the token \<^verbatim>\<open>"DMA"\<close>, and the eleven
  counts are stored as the strings they are under the labels \<^verbatim>\<open>1p\<close> to \<^verbatim>\<open>1024p\<close>. The
  point made from the entry has these fields, and its tags are what the client keeps of
  the global tags with \<^verbatim>\<open>node\<close> set to \<^verbatim>\<open>"0"\<close> and \<^verbatim>\<open>zone\<close> set to \<^verbatim>\<open>"DMA"\<close>:
  whatever the global tags are, they hold \<^verbatim>\<open>node\<close> \<^verbatim>\<open>"0"\<close> and \<^verbatim>\<open>zone\<close> \<^verbatim>\<open>"DMA"\<close>.
\<close>

theorem sample_line_entry:
  "Fields sampleLine ! 1 = ''0,''
   \<and> Fields sampleLine ! 3 = ''DMA''
   \<and> drop 4 (Fields sampleLine) = [''1'', ''1'', ''1'', ''0'', ''2'', ''1'', ''1'', ''0'', ''1'', ''1'', ''3'']
   \<and> makeBuddyEntry sampleLine =
       Ok \<lparr>Pages = [''1p'' \<mapsto> ''1'', ''2p'' \<mapsto> ''1'', ''4p'' \<mapsto> ''1'', ''8p'' \<mapsto> ''0'', ''16p'' \<mapsto> ''2'',
                    ''32p'' \<mapsto> ''1'', ''64p'' \<mapsto> ''1'', ''128p'' \<mapsto> ''0'', ''256p'' \<mapsto> ''1'',
                    ''512p'' \<mapsto> ''1'', ''1024p'' \<mapsto> ''3''],
           Node = ''0'', Zone = ''DMA''\<rparr>
   \<and> dom (Pages sampleEntry) =
       {''1p'', ''2p'', ''4p'', ''8p'', ''16p'', ''32p'', ''64p'', ''128p'', ''256p'', ''512p'', ''1024p''}
   \<and> addPoints noPointError m g [sampleEntry] t [] =
       (Inr [\<lparr>ptName = m, ptTags = keptTags (g(''node'' \<mapsto> ''0'', ''zone'' \<mapsto> ''DMA'')),
              ptFields = Pages sampleEntry, ptTime = t\<rparr>],
        g(''node'' \<mapsto> ''0'', ''zone'' \<mapsto> ''DMA''))
   \<and> keptTags (g(''node'' \<mapsto> ''0'', ''zone'' \<mapsto> ''DMA'')) ''node'' = Some ''0''
   \<and> keptTags (g(''node'' \<mapsto> ''0'', ''zone'' \<mapsto> ''DMA'')) ''zone'' = Some ''DMA''"
proof (intro conjI)
  show "makeBuddyEntry sampleLine =
       Ok \<lparr>Pages = [''1p'' \<mapsto> ''1'', ''2p'' \<mapsto> ''1'', ''4p'' \<mapsto> ''1'', ''8p'' \<mapsto> ''0'', ''16p'' \<mapsto> ''2'',
                    ''32p'' \<mapsto> ''1'', ''64p'' \<mapsto> ''1'', ''128p'' \<mapsto> ''0'', ''256p'' \<mapsto> ''1'',
                    ''512p'' \<mapsto> ''1'', ''1024p'' \<mapsto> ''3''],
           Node = ''0'', Zone = ''DMA''\<rparr>"
    using makeBuddyEntry_sampleLine by (simp only: sampleEntry_def)
  show "dom (Pages sampleEntry) =
       {''1p'', ''2p'', ''4p'', ''8p'', ''16p'', ''32p'', ''64p'', ''128p'', ''256p'', ''512p'', ''1024p''}"
    by (auto simp: sampleEntry_def)
  show "addPoints noPointError m g [sampleEntry] t [] =
       (Inr [\<lparr>ptName = m, ptTags = keptTags (g(''node'' \<mapsto> ''0'', ''zone'' \<mapsto> ''DMA'')),
              ptFields = Pages sampleEntry, ptTime = t\<rparr>],
        g(''node'' \<mapsto> ''0'', ''zone'' \<mapsto> ''DMA''))"
    by (simp add: noPointError_def newPoint_def sampleEntry_def Let_def)
  show "keptTags (g(''node'' \<mapsto> ''0'', ''zone'' \<mapsto> ''DMA'')) ''node'' = Some ''0''"
    by (simp add: keptTags_def)
  show "keptTags (g(''node'' \<mapsto> ''0'', ''zone'' \<mapsto> ''DMA'')) ''zone'' = Some ''DMA''"
    by (simp add: keptTags_def)
qed (simp_all add: Fields_sampleLine)

theorem sample_line_entry_witness:
  "ptTags (hd (projr (fst (addPoints noPointError ''buddyinfo'' (GlobalTags exSettings) [sampleEntry] 1000 []))))
     = [''host'' \<mapsto> ''box'', ''node'' \<mapsto> ''0'', ''zone'' \<mapsto> ''DMA'']
   \<and> ptFields (hd (projr (fst (addPoints noPointError ''buddyinfo'' (GlobalTags exSettings) [sampleEntry] 1000 []))))
       ''16p'' = Some ''2''"
  using sample_line_entry [of "''buddyinfo''" "GlobalTags exSettings" 1000]
  by (auto simp: exSettings_def sampleEntry_def keptTags_upd keptTags_empty)

text \<open>
  C4. An accepted line gives a field map with exactly the eleven keys \<^verbatim>\<open>1p\<close>, \<^verbatim>\<open>2p\<close>,
  \<^verbatim>\<open>4p\<close>, ..., \<^verbatim>\<open>1024p\<close>, which are the decimal numbers \<open>2\<^sup>i\<close> for \<open>i\<close> from 0 to 10
  followed by \<^verbatim>\<open>p\<close>, and under the label of \<open>2\<^sup>i\<close> it holds the \<open>i\<close>-th page count of
  the line.
\<close>

theorem page_fields:
  assumes "makeBuddyEntry line = Ok entry"
  shows "length (drop 4 (Fields line)) = 11
   \<and> dom (Pages entry) =
       {''1p'', ''2p'', ''4p'', ''8p'', ''16p'', ''32p'', ''64p'', ''128p'', ''256p'', ''512p'', ''1024p''}
   \<and> map (\<lambda>i. fmtInt (2 ^ i) @ ''p'') [0..<11] =
       [''1p'', ''2p'', ''4p'', ''8p'', ''16p'', ''32p'', ''64p'', ''128p'', ''256p'', ''512p'', ''1024p'']
   \<and> (\<forall>i<11. Pages entry (fmtInt (2 ^ i) @ ''p'') = Some (drop 4 (Fields line) ! i))"
proof -
  note p = makeBuddyEntry_pages [OF assms]
  have "\<forall>i<11. Pages entry (fmtInt (2 ^ i) @ ''p'') = Some (drop 4 (Fields line) ! i)"
    using pagesLoop_lookup [OF p(2)] by (simp only: p(3)) blast
  moreover have "dom (Pages entry) =
       {''1p'', ''2p'', ''4p'', ''8p'', ''16p'', ''32p'', ''64p'', ''128p'', ''256p'', ''512p'', ''1024p''}"
    using dom_pagesLoop_eleven [OF p(2)] by (simp only: p(3))
  ultimately show ?thesis using p(2) page_label_list by blast
qed

theorem page_fields_witness:
  "makeBuddyEntry sampleLine = Ok sampleEntry
   \<and> Pages sampleEntry (fmtInt (2 ^ 4) @ ''p'') = Some ''2''
   \<and> Pages sampleEntry (fmtInt (2 ^ 10) @ ''p'') = Some ''3''
   \<and> drop 4 (Fields sampleLine) ! 10 = ''3''
   \<and> card (dom (Pages sampleEntry)) = 11"
proof -
  note inst = page_fields [OF makeBuddyEntry_sampleLine]
  from inst have every:
    "\<forall>i<11. Pages sampleEntry (fmtInt (2 ^ i) @ ''p'') = Some (drop 4 (Fields sampleLine) ! i)"
    by blast
  from every [rule_format, of 4]
  have "Pages sampleEntry (fmtInt (2 ^ 4) @ ''p'') = Some (drop 4 (Fields sampleLine) ! 4)"
    by simp
  moreover from every [rule_format, of 10]
  have "Pages sampleEntry (fmtInt (2 ^ 10) @ ''p'') = Some (drop 4 (Fields sampleLine) ! 10)"
    by simp
  moreover from inst have "card (dom (Pages sampleEntry)) = 11"
    by (simp only: card_page_labels)
  ultimately show ?thesis
    using makeBuddyEntry_sampleLine by (simp add: Fields_sampleLine)
qed

section \<open>The batch\<close>

subsection \<open>What the loop of \<^verbatim>\<open>updateInflux\<close> computes\<close>

lemma node_zone_again:
  "(g(''node'' \<mapsto> n, ''zone'' \<mapsto> z))(''node'' \<mapsto> n', ''zone'' \<mapsto> z') = g(''node'' \<mapsto> n', ''zone'' \<mapsto> z')"
  by (rule ext) simp

lemma addPoints_Inr:
  "addPoints np m g batch t bp = (Inr pts, g') \<Longrightarrow>
     \<exists>new. pts = bp @ new \<and> length new = length batch \<and>
       (\<forall>i<length batch. new ! i =
          newPoint m (g(''node'' \<mapsto> Node (batch ! i), ''zone'' \<mapsto> Zone (batch ! i)))
            (Pages (batch ! i)) (t + int i))"
proof (induction batch arbitrary: g t bp)
  case Nil
  then show ?case by simp
next
  case (Cons e es)
  let ?g = "g(''node'' \<mapsto> Node e, ''zone'' \<mapsto> Zone e)"
  let ?pt = "newPoint m ?g (Pages e) t"
  from Cons.prems have np: "np ?pt = None"
    by (auto simp: Let_def split: option.splits)
  with Cons.prems have "addPoints np m ?g es (t + 1) (bp @ [?pt]) = (Inr pts, g')"
    by (simp add: Let_def)
  from Cons.IH [OF this] obtain new where
    new: "pts = (bp @ [?pt]) @ new" "length new = length es"
      "\<forall>i<length es. new ! i =
          newPoint m (?g(''node'' \<mapsto> Node (es ! i), ''zone'' \<mapsto> Zone (es ! i)))
            (Pages (es ! i)) (t + 1 + int i)"
    by blast
  have every: "\<forall>i<length (e # es). (?pt # new) ! i =
          newPoint m (g(''node'' \<mapsto> Node ((e # es) ! i), ''zone'' \<mapsto> Zone ((e # es) ! i)))
            (Pages ((e # es) ! i)) (t + int i)"
  proof (intro allI impI)
    fix i assume "i < length (e # es)"
    then show "(?pt # new) ! i =
          newPoint m (g(''node'' \<mapsto> Node ((e # es) ! i), ''zone'' \<mapsto> Zone ((e # es) ! i)))
            (Pages ((e # es) ! i)) (t + int i)"
    proof (cases i)
      case 0
      then show ?thesis by simp
    next
      case (Suc k)
      with \<open>i < length (e # es)\<close> have "k < length es" by simp
      with new(3) have "new ! k =
          newPoint m (?g(''node'' \<mapsto> Node (es ! k), ''zone'' \<mapsto> Zone (es ! k)))
            (Pages (es ! k)) (t + 1 + int k)"
        by blast
      then have "new ! k =
          newPoint m (g(''node'' \<mapsto> Node (es ! k), ''zone'' \<mapsto> Zone (es ! k)))
            (Pages (es ! k)) (t + 1 + int k)"
        by (simp only: node_zone_again)
      with Suc show ?thesis by (simp add: add.commute add.left_commute)
    qed
  qed
  have "pts = bp @ (?pt # new)" using new(1) by simp
  moreover have "length (?pt # new) = length (e # es)" using new(2) by simp
  ultimately show ?case using every by blast
qed

lemma addPoints_tags:
  "addPoints np m g batch t bp = (Inr pts, g') \<Longrightarrow>
     g' = (if batch = [] then g
           else g(''node'' \<mapsto> Node (last batch), ''zone'' \<mapsto> Zone (last batch)))"
proof (induction batch arbitrary: g t bp)
  case Nil
  then show ?case by simp
next
  case (Cons e es)
  let ?g = "g(''node'' \<mapsto> Node e, ''zone'' \<mapsto> Zone e)"
  let ?pt = "newPoint m ?g (Pages e) t"
  from Cons.prems have np: "np ?pt = None"
    by (auto simp: Let_def split: option.splits)
  with Cons.prems have "addPoints np m ?g es (t + 1) (bp @ [?pt]) = (Inr pts, g')"
    by (simp add: Let_def)
  from Cons.IH [OF this]
  have g': "g' = (if es = [] then ?g
                  else ?g(''node'' \<mapsto> Node (last es), ''zone'' \<mapsto> Zone (last es)))" .
  show ?case
  proof (cases "es = []")
    case True
    with g' show ?thesis by simp
  next
    case False
    with g' have "g' = ?g(''node'' \<mapsto> Node (last es), ''zone'' \<mapsto> Zone (last es))"
      by simp
    then have "g' = g(''node'' \<mapsto> Node (last es), ''zone'' \<mapsto> Zone (last es))"
      by (simp only: node_zone_again)
    with False show ?thesis by simp
  qed
qed

text \<open>A client that refuses no point lets the loop run to its end.\<close>

lemma addPoints_accepts:
  "\<forall>pt. np pt = None \<Longrightarrow> \<exists>pts g'. addPoints np m g batch t bp = (Inr pts, g')"
  by (induction batch arbitrary: g t bp) (simp_all add: Let_def)


subsection \<open>What \<^verbatim>\<open>updateInflux\<close> writes\<close>

lemma updateInflux_Wrote:
  assumes "updateInflux w influx batch = (r, evs, g')" and "Wrote bp \<in> set evs"
  shows "addPoints (NewPoint w) (Measurement influx) (GlobalTags influx) batch (Now w) [] = (Inr bp, g')"
    and "NewHTTPClient w = None" and "NewBatchPoints w = None"
  using assms
  by (auto simp: updateInflux_def Let_def split: option.splits sum.splits prod.splits)

lemma updateInflux_batch:
  assumes "updateInflux w influx batch = (r, evs, g')" and "Wrote bp \<in> set evs"
  shows "length bp = length batch"
    and "\<And>i. i < length batch \<Longrightarrow> bp ! i =
          newPoint (Measurement influx)
            ((GlobalTags influx)(''node'' \<mapsto> Node (batch ! i), ''zone'' \<mapsto> Zone (batch ! i)))
            (Pages (batch ! i)) (Now w + int i)"
    and "g' = (if batch = [] then GlobalTags influx
               else (GlobalTags influx)(''node'' \<mapsto> Node (last batch), ''zone'' \<mapsto> Zone (last batch)))"
proof -
  note ap = updateInflux_Wrote(1) [OF assms]
  from addPoints_Inr [OF ap] show "length bp = length batch" by auto
  from addPoints_Inr [OF ap] show "\<And>i. i < length batch \<Longrightarrow> bp ! i =
          newPoint (Measurement influx)
            ((GlobalTags influx)(''node'' \<mapsto> Node (batch ! i), ''zone'' \<mapsto> Zone (batch ! i)))
            (Pages (batch ! i)) (Now w + int i)" by auto
  from addPoints_tags [OF ap]
  show "g' = (if batch = [] then GlobalTags influx
               else (GlobalTags influx)(''node'' \<mapsto> Node (last batch), ''zone'' \<mapsto> Zone (last batch)))" .
qed

lemma updateInflux_accepts:
  assumes "NewHTTPClient w = None" and "NewBatchPoints w = None" and "\<forall>pt. NewPoint w pt = None"
  shows "\<exists>r bp g'. updateInflux w influx batch = (r, [Wrote bp], g') \<and> length bp = length batch"
proof -
  from addPoints_accepts [OF assms(3)] obtain pts g' where
    ap: "addPoints (NewPoint w) (Measurement influx) (GlobalTags influx) batch (Now w) [] = (Inr pts, g')"
    by blast
  from addPoints_Inr [OF ap] have len: "length pts = length batch" by auto
  have "\<exists>r. updateInflux w influx batch = (r, [Wrote pts], g')"
    using assms(1,2) ap by (cases "Write w pts") (simp_all add: updateInflux_def)
  with len show ?thesis by blast
qed


subsection \<open>Entries of the parser\<close>

lemma stringOfByte_nonempty: "stringOfByte b \<noteq> []"
  by (simp add: stringOfByte_def Let_def)

lemma makeBuddyEntry_node_zone:
  assumes "makeBuddyEntry line = Ok entry"
  shows "Node entry \<noteq> []" and "Zone entry \<noteq> []"
proof -
  note p = makeBuddyEntry_pages [OF assms]
  from p(5) show "Node entry \<noteq> []" by (metis stringOfByte_nonempty)
  from p(1) have "Fields line ! 3 \<in> set (Fields line)" by simp
  then show "Zone entry \<noteq> []" using Fields_nonempty p(4) by auto
qed

subsection \<open>Batches of the concrete entries\<close>

lemma updateInflux_twoEntries:
  "updateInflux goodWorld exSettings twoEntries =
     (Ok (), [Wrote twoPoints], [''host'' \<mapsto> ''box'', ''node'' \<mapsto> ''1'', ''zone'' \<mapsto> ''Normal''])"
  by (simp add: updateInflux_def goodWorld_def exSettings_def twoEntries_def twoPoints_def
      samplePoint_def sampleEntry_def otherEntry_def noPointError_def noWriteError_def Let_def
      newPoint_def keptTags_upd keptTags_empty)

lemma updateInflux_later:
  "updateInflux laterWorld otherSettings [otherEntry] =
     (Ok (), [Wrote [otherPoint]], [''host'' \<mapsto> ''box'', ''node'' \<mapsto> ''1'', ''zone'' \<mapsto> ''Normal''])"
  by (simp add: updateInflux_def laterWorld_def otherSettings_def exSettings_def otherPoint_def
      otherEntry_def noPointError_def noWriteError_def Let_def
      newPoint_def keptTags_upd keptTags_empty)

lemma updateInflux_sampleEntry:
  "updateInflux goodWorld exSettings [sampleEntry] =
     (Ok (), [Wrote [samplePoint]], [''host'' \<mapsto> ''box'', ''node'' \<mapsto> ''0'', ''zone'' \<mapsto> ''DMA''])"
  by (simp add: updateInflux_def goodWorld_def exSettings_def samplePoint_def
      sampleEntry_def noPointError_def noWriteError_def Let_def
      newPoint_def keptTags_upd keptTags_empty)

lemma updateInflux_noHost:
  "updateInflux goodWorld noHostSettings [sampleEntry] =
     (Ok (), [Wrote [noHostPoint]], [''host'' \<mapsto> '''', ''node'' \<mapsto> ''0'', ''zone'' \<mapsto> ''DMA''])"
  by (simp add: updateInflux_def goodWorld_def noHostSettings_def exSettings_def noHostPoint_def
      sampleEntry_def noPointError_def noWriteError_def Let_def
      newPoint_def keptTags_upd keptTags_empty)

lemma goodWorld_accepts:
  "NewHTTPClient goodWorld = None" "NewBatchPoints goodWorld = None"
  "\<forall>pt. NewPoint goodWorld pt = None"
  by (simp_all add: goodWorld_def noPointError_def)

section \<open>Claims about the batch\<close>

text \<open>
  C3. When \<^verbatim>\<open>updateInflux\<close> has assembled its batch, the batch has one point for each
  entry, in the order of the entries, and the point at position \<open>i\<close> carries the time
  \<^verbatim>\<open>time.Now()\<close> read before the loop plus \<open>i\<close> nanoseconds. So each point is one
  nanosecond after the one before it, the times increase strictly, and no two points of
  the batch have the same time. The point at position \<open>i\<close> has the fields of the entry
  at position \<open>i\<close> and the tags the client keeps of the global tags with the node and
  the zone of that entry.
\<close>

theorem batch_timestamps:
  assumes "updateInflux w influx batch = (r, evs, g')" and "Wrote bp \<in> set evs"
  shows "length bp = length batch
   \<and> (\<forall>i<length batch.
         ptTime (bp ! i) = Now w + int i \<and> ptFields (bp ! i) = Pages (batch ! i)
         \<and> ptTags (bp ! i) =
             keptTags ((GlobalTags influx)(''node'' \<mapsto> Node (batch ! i), ''zone'' \<mapsto> Zone (batch ! i)))
         \<and> (Node (batch ! i) \<noteq> [] \<longrightarrow> ptTags (bp ! i) ''node'' = Some (Node (batch ! i)))
         \<and> (Zone (batch ! i) \<noteq> [] \<longrightarrow> ptTags (bp ! i) ''zone'' = Some (Zone (batch ! i))))
   \<and> (\<forall>i. Suc i < length bp \<longrightarrow> ptTime (bp ! Suc i) = ptTime (bp ! i) + 1)
   \<and> (\<forall>i j. i < j \<and> j < length bp \<longrightarrow> ptTime (bp ! i) < ptTime (bp ! j))
   \<and> distinct (map ptTime bp)"
proof -
  note b = updateInflux_batch [OF assms]
  have time: "\<And>i. i < length bp \<Longrightarrow> ptTime (bp ! i) = Now w + int i"
    using b(1,2) by (simp add: newPoint_def)
  have "\<forall>i<length batch.
         ptTime (bp ! i) = Now w + int i \<and> ptFields (bp ! i) = Pages (batch ! i)
         \<and> ptTags (bp ! i) =
             keptTags ((GlobalTags influx)(''node'' \<mapsto> Node (batch ! i), ''zone'' \<mapsto> Zone (batch ! i)))
         \<and> (Node (batch ! i) \<noteq> [] \<longrightarrow> ptTags (bp ! i) ''node'' = Some (Node (batch ! i)))
         \<and> (Zone (batch ! i) \<noteq> [] \<longrightarrow> ptTags (bp ! i) ''zone'' = Some (Zone (batch ! i)))"
    using b(2) by (simp add: newPoint_def keptTags_def)
  moreover have "\<forall>i. Suc i < length bp \<longrightarrow> ptTime (bp ! Suc i) = ptTime (bp ! i) + 1"
    using time by simp
  moreover have "\<forall>i j. i < j \<and> j < length bp \<longrightarrow> ptTime (bp ! i) < ptTime (bp ! j)"
    using time by simp
  moreover have "distinct (map ptTime bp)"
    unfolding distinct_conv_nth using time by simp
  ultimately show ?thesis using b(1) by blast
qed

theorem batch_timestamps_witness:
  "updateInflux goodWorld exSettings twoEntries =
     (Ok (), [Wrote twoPoints], [''host'' \<mapsto> ''box'', ''node'' \<mapsto> ''1'', ''zone'' \<mapsto> ''Normal''])
   \<and> length twoPoints = 2
   \<and> map ptTime twoPoints = [1000, 1001]
   \<and> ptFields (twoPoints ! 1) = Pages otherEntry
   \<and> ptTags (twoPoints ! 1) ''node'' = Some ''1''
   \<and> distinct (map ptTime twoPoints)"
proof -
  have wrote: "Wrote twoPoints \<in> set [Wrote twoPoints]" by simp
  note inst = batch_timestamps [OF updateInflux_twoEntries wrote]
  from inst have "distinct (map ptTime twoPoints)" by blast
  moreover from inst have "length twoPoints = 2" by (simp add: twoEntries_def)
  moreover have "map ptTime twoPoints = [1000, 1001]"
    by (simp add: twoPoints_def samplePoint_def)
  moreover have "ptFields (twoPoints ! 1) = Pages otherEntry" by (simp add: twoPoints_def)
  moreover have "ptTags (twoPoints ! 1) ''node'' = Some ''1''" by (simp add: twoPoints_def)
  ultimately show ?thesis using updateInflux_twoEntries by simp
qed

text \<open>
  C5, as the spec has it, does not hold for a static tag whose value is empty: the
  client leaves such a tag out of the point. With the settings \<^verbatim>\<open>getConfig\<close> returns
  when the host name could not be found, the global tags hold \<^verbatim>\<open>host\<close> with the empty
  string, and the point that is written for the sample entry has no tag \<^verbatim>\<open>host\<close>.
\<close>

theorem empty_static_tag_dropped:
  "GlobalTags noHostSettings ''host'' = Some ''''
   \<and> updateInflux goodWorld noHostSettings [sampleEntry] =
       (Ok (), [Wrote [noHostPoint]], [''host'' \<mapsto> '''', ''node'' \<mapsto> ''0'', ''zone'' \<mapsto> ''DMA''])
   \<and> ptTags noHostPoint ''host'' = None
   \<and> ptTags noHostPoint ''host'' \<noteq> GlobalTags noHostSettings ''host''"
  using updateInflux_noHost
  by (simp add: noHostSettings_def noHostPoint_def)

text \<open>
  C5, amended. When the client refuses nothing, \<^verbatim>\<open>updateInflux\<close> writes one point for
  each entry. In every batch it writes, the point made from an entry whose node and zone
  are not empty, as they are in every entry of the parser, has \<^verbatim>\<open>node\<close> and \<^verbatim>\<open>zone\<close>
  of that entry, whatever the global tags held under these two names; under every other
  name it has the value the global tags had when \<^verbatim>\<open>updateInflux\<close> was called if that
  value is not empty, and no tag of that name if the value is empty.
\<close>

theorem tag_precedence:
  assumes "\<forall>entry\<in>set batch. Node entry \<noteq> [] \<and> Zone entry \<noteq> []"
  shows "(NewHTTPClient w = None \<and> NewBatchPoints w = None \<and> (\<forall>pt. NewPoint w pt = None) \<longrightarrow>
            (\<exists>r bp g'. updateInflux w influx batch = (r, [Wrote bp], g') \<and> length bp = length batch))
   \<and> (\<forall>r evs g' bp. updateInflux w influx batch = (r, evs, g') \<and> Wrote bp \<in> set evs \<longrightarrow>
         length bp = length batch
         \<and> (\<forall>i<length batch.
               ptTags (bp ! i) ''node'' = Some (Node (batch ! i))
               \<and> ptTags (bp ! i) ''zone'' = Some (Zone (batch ! i))
               \<and> (\<forall>k. k \<noteq> ''node'' \<and> k \<noteq> ''zone'' \<longrightarrow>
                     ptTags (bp ! i) k =
                       (if GlobalTags influx k = Some [] then None else GlobalTags influx k))))
   \<and> (\<forall>line entry. makeBuddyEntry line = Ok entry \<longrightarrow> Node entry \<noteq> [] \<and> Zone entry \<noteq> [])"
proof (intro conjI allI impI)
  assume "NewHTTPClient w = None \<and> NewBatchPoints w = None \<and> (\<forall>pt. NewPoint w pt = None)"
  then show "\<exists>r bp g'. updateInflux w influx batch = (r, [Wrote bp], g') \<and> length bp = length batch"
    using updateInflux_accepts [of w influx batch] by blast
next
  fix r evs g' bp
  assume run: "updateInflux w influx batch = (r, evs, g') \<and> Wrote bp \<in> set evs"
  then show "length bp = length batch" using updateInflux_batch(1) by blast
next
  fix r evs g' bp i
  assume run: "updateInflux w influx batch = (r, evs, g') \<and> Wrote bp \<in> set evs"
    and i: "i < length batch"
  from run i have pt: "ptTags (bp ! i) =
      keptTags ((GlobalTags influx)(''node'' \<mapsto> Node (batch ! i), ''zone'' \<mapsto> Zone (batch ! i)))"
    using updateInflux_batch(2) [of w influx batch r evs g' bp i] by (simp add: newPoint_def)
  from i assms have ne: "Node (batch ! i) \<noteq> []" "Zone (batch ! i) \<noteq> []" by simp_all
  from pt ne show "ptTags (bp ! i) ''node'' = Some (Node (batch ! i))"
    by (simp add: keptTags_def)
  from pt ne show "ptTags (bp ! i) ''zone'' = Some (Zone (batch ! i))"
    by (simp add: keptTags_def)
  fix k assume "k \<noteq> ''node'' \<and> k \<noteq> ''zone''"
  with pt show "ptTags (bp ! i) k =
      (if GlobalTags influx k = Some [] then None else GlobalTags influx k)"
    by (simp add: keptTags_def)
next
  fix line entry assume "makeBuddyEntry line = Ok entry"
  then show "Node entry \<noteq> []" and "Zone entry \<noteq> []"
    using makeBuddyEntry_node_zone by blast+
qed

theorem tag_precedence_witness:
  "GlobalTags exSettings ''node'' = Some ''static''
   \<and> updateInflux goodWorld exSettings twoEntries =
       (Ok (), [Wrote twoPoints], [''host'' \<mapsto> ''box'', ''node'' \<mapsto> ''1'', ''zone'' \<mapsto> ''Normal''])
   \<and> ptTags (twoPoints ! 0) ''node'' = Some (Node (twoEntries ! 0))
   \<and> ptTags (twoPoints ! 0) ''node'' = Some ''0''
   \<and> ptTags (twoPoints ! 1) ''node'' = Some ''1''
   \<and> ptTags (twoPoints ! 1) ''zone'' = Some ''Normal''
   \<and> ptTags (twoPoints ! 1) ''host'' = Some ''box''
   \<and> GlobalTags noHostSettings ''host'' = Some ''''
   \<and> updateInflux goodWorld noHostSettings [sampleEntry] =
       (Ok (), [Wrote [noHostPoint]], [''host'' \<mapsto> '''', ''node'' \<mapsto> ''0'', ''zone'' \<mapsto> ''DMA''])
   \<and> ptTags ([noHostPoint] ! 0) ''host'' = None
   \<and> ptTags ([noHostPoint] ! 0) ''zone'' = Some ''DMA''"
proof -
  have two: "\<forall>entry\<in>set twoEntries. Node entry \<noteq> [] \<and> Zone entry \<noteq> []"
    by (simp add: twoEntries_def sampleEntry_def otherEntry_def)
  have one: "\<forall>entry\<in>set [sampleEntry]. Node entry \<noteq> [] \<and> Zone entry \<noteq> []"
    by (simp add: sampleEntry_def)
  have w2: "Wrote twoPoints \<in> set [Wrote twoPoints]"
    and w1: "Wrote [noHostPoint] \<in> set [Wrote [noHostPoint]]" by simp_all
  from tag_precedence [OF two, of goodWorld exSettings] updateInflux_twoEntries w2
  have a: "\<forall>i<length twoEntries.
      ptTags (twoPoints ! i) ''node'' = Some (Node (twoEntries ! i))
      \<and> ptTags (twoPoints ! i) ''zone'' = Some (Zone (twoEntries ! i))
      \<and> (\<forall>k. k \<noteq> ''node'' \<and> k \<noteq> ''zone'' \<longrightarrow>
            ptTags (twoPoints ! i) k =
              (if GlobalTags exSettings k = Some [] then None else GlobalTags exSettings k))"
    by blast
  from tag_precedence [OF one, of goodWorld noHostSettings] updateInflux_noHost w1
  have b: "\<forall>i<length [sampleEntry].
      ptTags ([noHostPoint] ! i) ''node'' = Some (Node ([sampleEntry] ! i))
      \<and> ptTags ([noHostPoint] ! i) ''zone'' = Some (Zone ([sampleEntry] ! i))
      \<and> (\<forall>k. k \<noteq> ''node'' \<and> k \<noteq> ''zone'' \<longrightarrow>
            ptTags ([noHostPoint] ! i) k =
              (if GlobalTags noHostSettings k = Some [] then None else GlobalTags noHostSettings k))"
    by blast
  from a [rule_format, of 0] have a0: "ptTags (twoPoints ! 0) ''node'' = Some (Node (twoEntries ! 0))"
    by (simp add: twoEntries_def)
  from a [rule_format, of 1] have a1:
    "ptTags (twoPoints ! 1) ''node'' = Some ''1''"
    "ptTags (twoPoints ! 1) ''zone'' = Some ''Normal''"
    "ptTags (twoPoints ! 1) ''host'' = Some ''box''"
    by (simp_all add: twoEntries_def otherEntry_def exSettings_def)
  from b [rule_format, of 0] have b0:
    "ptTags ([noHostPoint] ! 0) ''host'' = None"
    "ptTags ([noHostPoint] ! 0) ''zone'' = Some ''DMA''"
    by (simp_all add: sampleEntry_def noHostSettings_def)
  have "GlobalTags exSettings ''node'' = Some ''static''" by (simp add: exSettings_def)
  moreover have "GlobalTags noHostSettings ''host'' = Some ''''" by (simp add: noHostSettings_def)
  moreover from a0 have "ptTags (twoPoints ! 0) ''node'' = Some ''0''"
    by (simp add: twoEntries_def sampleEntry_def)
  ultimately show ?thesis
    using a0 a1 b0 updateInflux_twoEntries updateInflux_noHost by blast
qed




text \<open>
  C9. The tags and the fields of a point depend on nothing but the entry and the
  contents of the global tags at the call: two runs of \<^verbatim>\<open>updateInflux\<close> that start
  from equal global tags give equal tags and equal fields to the points of equal
  entries, whatever the clock, the other settings, the answers of the client and the
  other entries of the two batches are.
\<close>

theorem encoding_deterministic:
  assumes "GlobalTags c1 = GlobalTags c2"
    and "updateInflux w1 c1 batch1 = (r1, evs1, g1)" and "Wrote bp1 \<in> set evs1"
    and "updateInflux w2 c2 batch2 = (r2, evs2, g2)" and "Wrote bp2 \<in> set evs2"
    and "i < length batch1" and "j < length batch2" and "batch1 ! i = batch2 ! j"
  shows "ptTags (bp1 ! i) = ptTags (bp2 ! j) \<and> ptFields (bp1 ! i) = ptFields (bp2 ! j)"
  using updateInflux_batch(2) [OF assms(2,3,6)] updateInflux_batch(2) [OF assms(4,5,7)]
    assms(1,8)
  by (simp add: newPoint_def)

theorem encoding_deterministic_witness:
  "GlobalTags exSettings = GlobalTags otherSettings
   \<and> Now goodWorld \<noteq> Now laterWorld
   \<and> Measurement exSettings \<noteq> Measurement otherSettings
   \<and> twoEntries ! 1 = [otherEntry] ! 0
   \<and> ptTime (twoPoints ! 1) \<noteq> ptTime ([otherPoint] ! 0)
   \<and> ptTags (twoPoints ! 1) = ptTags ([otherPoint] ! 0)
   \<and> ptFields (twoPoints ! 1) = ptFields ([otherPoint] ! 0)"
proof -
  have same: "GlobalTags exSettings = GlobalTags otherSettings"
    by (simp add: otherSettings_def)
  have w1: "Wrote twoPoints \<in> set [Wrote twoPoints]"
    and w2: "Wrote [otherPoint] \<in> set [Wrote [otherPoint]]" by simp_all
  have i: "(1::nat) < length twoEntries" and j: "(0::nat) < length [otherEntry]"
    and e: "twoEntries ! 1 = [otherEntry] ! 0"
    by (simp_all add: twoEntries_def)
  from encoding_deterministic [OF same updateInflux_twoEntries w1 updateInflux_later w2 i j e]
  show ?thesis
    using same e
    by (simp add: goodWorld_def laterWorld_def otherSettings_def exSettings_def
        twoPoints_def otherPoint_def)
qed

section \<open>The loop of \<^verbatim>\<open>main\<close>\<close>

subsection \<open>How a cycle ends\<close>

lemma updateInflux_returns:
  "\<exists>evs g. updateInflux w influx batch = (Ok (), evs, g)
     \<or> (\<exists>err. updateInflux w influx batch = (Err err, evs, g))"
  by (auto simp: updateInflux_def Let_def split: option.splits sum.splits prod.splits)

lemma updateInflux_write_error:
  assumes "updateInflux w influx batch = (r, evs, g)"
    and "Wrote bp \<in> set evs" and "Write w bp = Some err"
  shows "r = Err err"
  using assms
  by (auto simp: updateInflux_def Let_def split: option.splits sum.splits prod.splits)

lemma processBuddyInfo_read_error:
  "ReadFile w = Inl err \<Longrightarrow>
     processBuddyInfo scan w cfg = (Fatal err, [LoggedFatal err], GlobalTags cfg)"
  by (simp add: processBuddyInfo_def slurpLines_def)

lemma processBuddyInfo_accepted:
  assumes "ReadFile w = Inr data" and "readBatch (scan data) [] = Ok batch"
  shows "processBuddyInfo scan w cfg = updateInflux w cfg batch"
  using assms by (simp add: processBuddyInfo_def slurpLines_def)

lemma mainLoop_Err:
  "processBuddyInfo scan w cfg = (Err err, evs, g) \<Longrightarrow>
     mainLoop scan cfg (w # ws) =
       (evs @ [Printed err, Slept (Interval cfg)] @ fst (mainLoop scan (cfg\<lparr>GlobalTags := g\<rparr>) ws),
        snd (mainLoop scan (cfg\<lparr>GlobalTags := g\<rparr>) ws))"
  by (simp add: split_beta)

lemma mainLoop_Ok:
  "processBuddyInfo scan w cfg = (Ok u, evs, g) \<Longrightarrow>
     mainLoop scan cfg (w # ws) =
       (evs @ [Slept (Interval cfg)] @ fst (mainLoop scan (cfg\<lparr>GlobalTags := g\<rparr>) ws),
        snd (mainLoop scan (cfg\<lparr>GlobalTags := g\<rparr>) ws))"
  by (simp add: split_beta)

subsection \<open>Cycles on the concrete inputs\<close>

lemma processBuddyInfo_goodWorld:
  "processBuddyInfo linesOf goodWorld exSettings =
     (Ok (), [Wrote [samplePoint]], [''host'' \<mapsto> ''box'', ''node'' \<mapsto> ''0'', ''zone'' \<mapsto> ''DMA''])"
proof -
  have "ReadFile goodWorld = Inr sampleLine" by (simp add: goodWorld_def)
  moreover have "readBatch (linesOf sampleLine) [] = Ok [sampleEntry]"
    by (simp add: linesOf_sampleLine makeBuddyEntry_sampleLine)
  ultimately show ?thesis
    using processBuddyInfo_accepted updateInflux_sampleEntry by simp
qed

lemma processBuddyInfo_writeFailWorld:
  "processBuddyInfo linesOf writeFailWorld exSettings =
     (Err (LibError ''connection refused''), [Wrote [samplePoint]],
      [''host'' \<mapsto> ''box'', ''node'' \<mapsto> ''0'', ''zone'' \<mapsto> ''DMA''])"
proof -
  have "ReadFile writeFailWorld = Inr sampleLine" by (simp add: writeFailWorld_def)
  moreover have "readBatch (linesOf sampleLine) [] = Ok [sampleEntry]"
    by (simp add: linesOf_sampleLine makeBuddyEntry_sampleLine)
  moreover have "updateInflux writeFailWorld exSettings [sampleEntry] =
     (Err (LibError ''connection refused''), [Wrote [samplePoint]],
      [''host'' \<mapsto> ''box'', ''node'' \<mapsto> ''0'', ''zone'' \<mapsto> ''DMA''])"
    by (simp add: updateInflux_def writeFailWorld_def exSettings_def samplePoint_def
        sampleEntry_def noPointError_def refusedWrite_def Let_def
        newPoint_def keptTags_upd keptTags_empty)
  ultimately show ?thesis
    using processBuddyInfo_accepted by simp
qed

lemma processBuddyInfo_goodWorld_again:
  "processBuddyInfo linesOf goodWorld
       (exSettings\<lparr>GlobalTags := [''host'' \<mapsto> ''box'', ''node'' \<mapsto> ''0'', ''zone'' \<mapsto> ''DMA'']\<rparr>) =
     (Ok (), [Wrote [samplePoint]], [''host'' \<mapsto> ''box'', ''node'' \<mapsto> ''0'', ''zone'' \<mapsto> ''DMA''])"
proof -
  have "ReadFile goodWorld = Inr sampleLine" by (simp add: goodWorld_def)
  moreover have "readBatch (linesOf sampleLine) [] = Ok [sampleEntry]"
    by (simp add: linesOf_sampleLine makeBuddyEntry_sampleLine)
  moreover have "updateInflux goodWorld
       (exSettings\<lparr>GlobalTags := [''host'' \<mapsto> ''box'', ''node'' \<mapsto> ''0'', ''zone'' \<mapsto> ''DMA'']\<rparr>)
       [sampleEntry] =
     (Ok (), [Wrote [samplePoint]], [''host'' \<mapsto> ''box'', ''node'' \<mapsto> ''0'', ''zone'' \<mapsto> ''DMA''])"
    by (simp add: updateInflux_def goodWorld_def exSettings_def samplePoint_def
        sampleEntry_def noPointError_def noWriteError_def Let_def
        newPoint_def keptTags_upd keptTags_empty)
  ultimately show ?thesis
    using processBuddyInfo_accepted by simp
qed

lemma exSettings_same_tags: "exSettings\<lparr>GlobalTags := GlobalTags exSettings\<rparr> = exSettings"
  by simp

lemma Interval_exSettings: "Interval exSettings = 5000000000"
  by (simp add: exSettings_def)

lemma mainLoop_goodWorld:
  "mainLoop linesOf exSettings [goodWorld] = ([Wrote [samplePoint], Slept 5000000000], Running)"
  using mainLoop_Ok [OF processBuddyInfo_goodWorld, of "[]"]
  by (simp add: Interval_exSettings)

lemma mainLoop_goodWorld_again:
  "mainLoop linesOf
       (exSettings\<lparr>GlobalTags := [''host'' \<mapsto> ''box'', ''node'' \<mapsto> ''0'', ''zone'' \<mapsto> ''DMA'']\<rparr>)
       [goodWorld] =
     ([Wrote [samplePoint], Slept 5000000000], Running)"
  using mainLoop_Ok [OF processBuddyInfo_goodWorld_again, of "[]"]
  by (simp add: Interval_exSettings)

section \<open>Claims about the loop of \<^verbatim>\<open>main\<close>\<close>

text \<open>
  C7, as the spec has it, does not hold: when the file cannot be read,
  \<^verbatim>\<open>processBuddyInfo\<close> calls \<^verbatim>\<open>log.Fatal\<close>, which ends the process. A run whose first
  cycle cannot read the file logs the error and exits; the second cycle, in which the
  file could be read and a point would be written, never takes place.
\<close>

theorem read_failure_exits:
  "ReadFile noFileWorld = Inl (LibError ''open proc_buddyinfo.txt: no such file or directory'')
   \<and> mainLoop linesOf exSettings [goodWorld] = ([Wrote [samplePoint], Slept 5000000000], Running)
   \<and> mainLoop linesOf exSettings [noFileWorld, goodWorld] =
       ([LoggedFatal (LibError ''open proc_buddyinfo.txt: no such file or directory'')], Exited)"
proof -
  have rd: "ReadFile noFileWorld =
      Inl (LibError ''open proc_buddyinfo.txt: no such file or directory'')"
    by (simp add: noFileWorld_def)
  from processBuddyInfo_read_error [OF rd, of linesOf exSettings]
  have "mainLoop linesOf exSettings [noFileWorld, goodWorld] =
       ([LoggedFatal (LibError ''open proc_buddyinfo.txt: no such file or directory'')], Exited)"
    by simp
  with rd mainLoop_goodWorld show ?thesis by blast
qed

text \<open>
  C7, amended. When reading the file fails, the cycle is aborted and the error is
  logged, and the failure ends the process: \<^verbatim>\<open>processBuddyInfo\<close> leaves through
  \<^verbatim>\<open>log.Fatal\<close> without a write, and the loop of \<^verbatim>\<open>main\<close> runs no later cycle,
  whatever the later cycles would have met.
\<close>

theorem read_failure_fatal:
  assumes "ReadFile w = Inl err"
  shows "processBuddyInfo scan w cfg = (Fatal err, [LoggedFatal err], GlobalTags cfg)
   \<and> mainLoop scan cfg (w # ws) = ([LoggedFatal err], Exited)"
  using processBuddyInfo_read_error [OF assms, of scan cfg] by simp

theorem read_failure_fatal_witness:
  "processBuddyInfo linesOf noFileWorld exSettings =
     (Fatal (LibError ''open proc_buddyinfo.txt: no such file or directory''),
      [LoggedFatal (LibError ''open proc_buddyinfo.txt: no such file or directory'')],
      GlobalTags exSettings)
   \<and> mainLoop linesOf exSettings [noFileWorld, goodWorld, goodWorld] =
       ([LoggedFatal (LibError ''open proc_buddyinfo.txt: no such file or directory'')], Exited)"
proof -
  have rd: "ReadFile noFileWorld =
      Inl (LibError ''open proc_buddyinfo.txt: no such file or directory'')"
    by (simp add: noFileWorld_def)
  from read_failure_fatal [OF rd, of linesOf exSettings "[goodWorld, goodWorld]"]
  show ?thesis by simp
qed

text \<open>
  C8. In a cycle whose file could be read, \<^verbatim>\<open>processBuddyInfo\<close> returns: with
  \<^verbatim>\<open>nil\<close> or with an error, never through a panic or \<^verbatim>\<open>log.Fatal\<close>. A line that is
  refused makes it return an error before anything is written, and an error of
  \<^verbatim>\<open>c.Write\<close> is the error it returns. On an error \<^verbatim>\<open>main\<close> prints it, sleeps for the
  interval of the configuration and goes on with the next cycle.
\<close>

theorem error_cycle_continues:
  assumes "ReadFile w = Inr data"
  shows "\<exists>r evs g. processBuddyInfo scan w cfg = (r, evs, g)
     \<and> (r = Ok () \<or> (\<exists>err. r = Err err))
     \<and> ((\<exists>l\<in>set (scan data). length (Fields l) \<noteq> 15) \<longrightarrow> (\<exists>err. r = Err err) \<and> evs = [])
     \<and> (\<forall>bp err. Wrote bp \<in> set evs \<and> Write w bp = Some err \<longrightarrow> r = Err err)
     \<and> (\<forall>err. r = Err err \<longrightarrow>
          mainLoop scan cfg (w # ws) =
            (evs @ [Printed err, Slept (Interval cfg)]
               @ fst (mainLoop scan (cfg\<lparr>GlobalTags := g\<rparr>) ws),
             snd (mainLoop scan (cfg\<lparr>GlobalTags := g\<rparr>) ws)))"
proof -
  obtain r evs g where run: "processBuddyInfo scan w cfg = (r, evs, g)"
    by (cases "processBuddyInfo scan w cfg") auto
  have loop: "\<forall>err. r = Err err \<longrightarrow>
          mainLoop scan cfg (w # ws) =
            (evs @ [Printed err, Slept (Interval cfg)]
               @ fst (mainLoop scan (cfg\<lparr>GlobalTags := g\<rparr>) ws),
             snd (mainLoop scan (cfg\<lparr>GlobalTags := g\<rparr>) ws))"
    using run mainLoop_Err [of scan w cfg _ evs g ws] by blast
  show ?thesis
  proof (cases "\<forall>l\<in>set (scan data). length (Fields l) = 15")
    case True
    with readBatch_cases [of "scan data" "[]"] obtain batch
      where batch: "readBatch (scan data) [] = Ok batch" by auto
    from processBuddyInfo_accepted [where w = w and data = data and scan = scan
        and batch = batch and cfg = cfg] assms batch run
    have upd: "updateInflux w cfg batch = (r, evs, g)" by simp
    from updateInflux_returns [of w cfg batch] upd
    have ret: "r = Ok () \<or> (\<exists>err. r = Err err)" by auto
    have wr: "\<forall>bp err. Wrote bp \<in> set evs \<and> Write w bp = Some err \<longrightarrow> r = Err err"
      using updateInflux_write_error [OF upd] by blast
    from True have "\<not> (\<exists>l\<in>set (scan data). length (Fields l) \<noteq> 15)" by blast
    with run ret wr loop show ?thesis by blast
  next
    case False
    then obtain bad where bad: "bad \<in> set (scan data)" "length (Fields bad) \<noteq> 15" by blast
    from processBuddyInfo_refused_line [where w = w and data = data and scan = scan
        and bad = bad and cfg = cfg] assms bad run
    obtain l where r: "r = Err (fieldCountError (length (Fields l)) l)" and evs: "evs = []"
      by auto
    from evs have "\<forall>bp err. Wrote bp \<in> set evs \<and> Write w bp = Some err \<longrightarrow> r = Err err"
      by simp
    with run r evs loop show ?thesis by blast
  qed
qed

theorem error_cycle_continues_witness:
  "processBuddyInfo linesOf badLineWorld exSettings =
     (Err (Errorf ''found 5 fields in proc_buddyinfo.txt (expected 15) in Node 0, zone DMA 1''),
      [], GlobalTags exSettings)
   \<and> mainLoop linesOf exSettings [badLineWorld, goodWorld] =
       ([Printed (Errorf ''found 5 fields in proc_buddyinfo.txt (expected 15) in Node 0, zone DMA 1''),
         Slept 5000000000, Wrote [samplePoint], Slept 5000000000], Running)
   \<and> Write writeFailWorld [samplePoint] = Some (LibError ''connection refused'')
   \<and> mainLoop linesOf exSettings [writeFailWorld, goodWorld] =
       ([Wrote [samplePoint], Printed (LibError ''connection refused''), Slept 5000000000,
         Wrote [samplePoint], Slept 5000000000], Running)"
proof -
  have rd1: "ReadFile badLineWorld = Inr twoLineFile" by (simp add: badLineWorld_def)
  have rd2: "ReadFile writeFailWorld = Inr sampleLine" by (simp add: writeFailWorld_def)
  have "mainLoop linesOf exSettings [badLineWorld, goodWorld] =
       ([Printed (Errorf ''found 5 fields in proc_buddyinfo.txt (expected 15) in Node 0, zone DMA 1''),
         Slept 5000000000, Wrote [samplePoint], Slept 5000000000], Running)"
  proof -
    from error_cycle_continues [OF rd1, of linesOf exSettings "[goodWorld]"]
    obtain r evs g where run: "processBuddyInfo linesOf badLineWorld exSettings = (r, evs, g)"
      and loop: "\<forall>err. r = Err err \<longrightarrow>
          mainLoop linesOf exSettings [badLineWorld, goodWorld] =
            (evs @ [Printed err, Slept (Interval exSettings)]
               @ fst (mainLoop linesOf (exSettings\<lparr>GlobalTags := g\<rparr>) [goodWorld]),
             snd (mainLoop linesOf (exSettings\<lparr>GlobalTags := g\<rparr>) [goodWorld]))"
      by blast
    from run processBuddyInfo_badLineWorld
    have r: "r = Err (Errorf ''found 5 fields in proc_buddyinfo.txt (expected 15) in Node 0, zone DMA 1'')"
      and evs: "evs = []" and g: "g = GlobalTags exSettings"
      by simp_all
    from loop r show ?thesis
      unfolding evs g exSettings_same_tags mainLoop_goodWorld Interval_exSettings
      by simp
  qed
  moreover have "mainLoop linesOf exSettings [writeFailWorld, goodWorld] =
       ([Wrote [samplePoint], Printed (LibError ''connection refused''), Slept 5000000000,
         Wrote [samplePoint], Slept 5000000000], Running)"
  proof -
    from error_cycle_continues [OF rd2, of linesOf exSettings "[goodWorld]"]
    obtain r evs g where run: "processBuddyInfo linesOf writeFailWorld exSettings = (r, evs, g)"
      and loop: "\<forall>err. r = Err err \<longrightarrow>
          mainLoop linesOf exSettings [writeFailWorld, goodWorld] =
            (evs @ [Printed err, Slept (Interval exSettings)]
               @ fst (mainLoop linesOf (exSettings\<lparr>GlobalTags := g\<rparr>) [goodWorld]),
             snd (mainLoop linesOf (exSettings\<lparr>GlobalTags := g\<rparr>) [goodWorld]))"
      by blast
    from run processBuddyInfo_writeFailWorld
    have r: "r = Err (LibError ''connection refused'')"
      and evs: "evs = [Wrote [samplePoint]]"
      and g: "g = [''host'' \<mapsto> ''box'', ''node'' \<mapsto> ''0'', ''zone'' \<mapsto> ''DMA'']"
      by simp_all
    from loop r show ?thesis
      unfolding evs g mainLoop_goodWorld_again Interval_exSettings
      by simp
  qed
  moreover have "Write writeFailWorld [samplePoint] = Some (LibError ''connection refused'')"
    by (simp add: writeFailWorld_def refusedWrite_def)
  ultimately show ?thesis using processBuddyInfo_badLineWorld by blast
qed


end
